theory Spec2Isabelle
  imports Main "HOL-Library.List_Lexorder"
begin

section \<open>Buffers and the codec helpers of util.ts\<close>

text \<open>
  A Buffer is a list of bytes, each byte a natural number. \<open>Buffer.compare\<close> orders
  buffers bytewise, a proper prefix before its extensions, which is the lexicographic
  order on lists; it answers -1, 0 or 1.
\<close>

type_synonym buffer = "nat list"

definition compare :: "buffer \<Rightarrow> buffer \<Rightarrow> int" where
  "compare a b = (if a < b then - 1 else if a = b then 0 else 1)"

text \<open>
  \<open>numberToBuffer\<close> prints the number in hexadecimal, pads the text on the left with
  zeros to eight digits and decodes the text as hex. The decoder reads two digits per
  byte and stops at the first pair that is not hex, so that a ninth digit alone is
  dropped and the sign of a negative number ends the buffer after three zero bytes.
\<close>

fun hexDigits :: "nat \<Rightarrow> nat \<Rightarrow> nat list" where
  "hexDigits 0 n = []"
| "hexDigits (Suc f) n = (if n < 16 then [n] else hexDigits f (n div 16) @ [n mod 16])"

definition padStart :: "nat \<Rightarrow> nat list \<Rightarrow> nat list" where
  "padStart w ds = replicate (w - length ds) 0 @ ds"

fun fromHex :: "nat list \<Rightarrow> buffer" where
  "fromHex (a # b # ds) = (16 * a + b) # fromHex ds"
| "fromHex ds = []"

definition numberToBuffer :: "int \<Rightarrow> buffer" where
  "numberToBuffer num =
     (if num < 0 then [0, 0, 0]
      else fromHex (padStart 8 (hexDigits (Suc (nat num)) (nat num))))"

definition numberfromBuffer :: "buffer \<Rightarrow> int" where
  "numberfromBuffer b = int (foldl (\<lambda>acc x. 256 * acc + x) 0 b)"

text \<open>
  \<open>sha256\<close> hashes the concatenation of its arguments. The digest function itself
  belongs to the runtime, so it is a parameter \<open>H\<close> of everything that hashes.
\<close>

definition sha256 :: "(buffer \<Rightarrow> buffer) \<Rightarrow> buffer list \<Rightarrow> buffer" where
  "sha256 H data = H (concat data)"

section \<open>Nodes\<close>

text \<open>
  The fields that Leaf and Branch share come first. A branch keeps, for each side, the
  recorded child hash, the recorded height and whether the private reference
  (\<open>_left\<close>, \<open>_right\<close>) is set. The subtree on each side is always present in the
  model: when the private reference is not set it is the node that the getter would
  fetch from the node table under the recorded hash.
\<close>

record base =
  key :: buffer
  version :: "int option"
  hash :: "buffer option"
  isDirty :: bool

record leaf = base +
  leafValue :: buffer

record branch = base +
  leftHeight :: nat
  rightHeight :: nat
  leftHash :: "buffer option"
  rightHash :: "buffer option"
  leftHeld :: bool
  rightHeld :: bool

datatype node = Leaf leaf | Branch branch node node

fun nodeKey :: "node \<Rightarrow> buffer" where
  "nodeKey (Leaf l) = key l"
| "nodeKey (Branch b l r) = key b"

fun nodeHash :: "node \<Rightarrow> buffer option" where
  "nodeHash (Leaf l) = hash l"
| "nodeHash (Branch b l r) = hash b"


fun nodeDirty :: "node \<Rightarrow> bool" where
  "nodeDirty (Leaf l) = isDirty l"
| "nodeDirty (Branch b l r) = isDirty b"

fun height :: "node \<Rightarrow> nat" where
  "height (Leaf l) = 1"
| "height (Branch b l r) = 1 + max (leftHeight b) (rightHeight b)"

definition balanceFactor :: "branch \<Rightarrow> int" where
  "balanceFactor b = int (leftHeight b) - int (rightHeight b)"

text \<open>The constructors: a node is dirty exactly when it is built without a hash.\<close>

definition mkLeaf :: "buffer \<Rightarrow> buffer \<Rightarrow> int option \<Rightarrow> buffer option \<Rightarrow> leaf" where
  "mkLeaf k v ver h =
     \<lparr>key = k, version = ver, hash = h, isDirty = (h = None), leafValue = v\<rparr>"

definition mkBranch ::
    "buffer \<Rightarrow> int option \<Rightarrow> nat \<Rightarrow> nat \<Rightarrow> buffer option \<Rightarrow> buffer option \<Rightarrow> buffer option \<Rightarrow> branch" where
  "mkBranch k ver lh rh lhash rhash h =
     \<lparr>key = k, version = ver, hash = h, isDirty = (h = None),
      leftHeight = lh, rightHeight = rh, leftHash = lhash, rightHash = rhash,
      leftHeld = False, rightHeld = False\<rparr>"

definition newLeaf :: "buffer \<Rightarrow> buffer \<Rightarrow> node" where
  "newLeaf k v = Leaf (mkLeaf k v None None)"

definition newBranch :: "buffer \<Rightarrow> branch" where
  "newBranch k = mkBranch k None 0 0 None None None"

text \<open>
  The setters of \<open>left\<close> and \<open>right\<close>: keep the node, take its height, become dirty
  when the node is dirty or its hash is not the recorded one, and forget the recorded
  hash. The source compares the two Buffers with \<open>!==\<close>, that is by reference: they are
  the same when both are missing, or when the node is the very object that this side
  holds (it was fetched under the recorded hash and carries that Buffer as its hash).
  Values have no identity, so the caller says whether the node is that object. On a
  leaf there is nothing to set.
\<close>

definition differs :: "buffer option \<Rightarrow> buffer option \<Rightarrow> bool \<Rightarrow> bool" where
  "differs recorded h same =
     (case (recorded, h) of
        (None, None) \<Rightarrow> False
      | (Some a, Some b) \<Rightarrow> \<not> same
      | _ \<Rightarrow> True)"

fun setLeft :: "node \<Rightarrow> node \<Rightarrow> bool \<Rightarrow> node" where
  "setLeft (Branch b l r) n same =
     Branch (b\<lparr>leftHeight := height n,
               isDirty := isDirty b \<or> nodeDirty n \<or> differs (leftHash b) (nodeHash n) same,
               leftHash := None, leftHeld := True\<rparr>) n r"
| "setLeft (Leaf l) n same = Leaf l"

fun setRight :: "node \<Rightarrow> node \<Rightarrow> bool \<Rightarrow> node" where
  "setRight (Branch b l r) n same =
     Branch (b\<lparr>rightHeight := height n,
               isDirty := isDirty b \<or> nodeDirty n \<or> differs (rightHash b) (nodeHash n) same,
               rightHash := None, rightHeld := True\<rparr>) l n"
| "setRight (Leaf l) n same = Leaf l"

text \<open>The getters fetch the child on first access and keep it.\<close>

fun getLeft :: "node \<Rightarrow> node" where
  "getLeft (Branch b l r) = Branch (b\<lparr>leftHeld := True\<rparr>) l r"
| "getLeft (Leaf l) = Leaf l"

fun getRight :: "node \<Rightarrow> node" where
  "getRight (Branch b l r) = Branch (b\<lparr>rightHeld := True\<rparr>) l r"
| "getRight (Leaf l) = Leaf l"

subsection \<open>Rotations and balance\<close>

text \<open>
  \<open>leftRotation\<close> makes the right child the new root. Its left part becomes the right
  of this node: through the setter when the new root holds that part, and by copying
  the recorded hash and height otherwise. The source casts the child to Branch without
  a test; the recorded heights that call for a rotation are those of a branch, and on a
  leaf the model leaves the node as it is.
\<close>

fun leftRotation :: "node \<Rightarrow> node" where
  "leftRotation (Branch b l (Branch rb rl rr)) =
     (let this = (if leftHeld rb
                  then setRight (getRight (Branch b l (Branch rb rl rr))) rl False
                  else Branch (b\<lparr>rightHash := leftHash rb, rightHeight := leftHeight rb,
                                 isDirty := True, rightHeld := False\<rparr>) l rl)
      in setLeft (Branch rb rl rr) this False)"
| "leftRotation n = n"

fun rightRotation :: "node \<Rightarrow> node" where
  "rightRotation (Branch b (Branch lb ll lr) r) =
     (let this = (if rightHeld lb
                  then setLeft (getLeft (Branch b (Branch lb ll lr) r)) lr False
                  else Branch (b\<lparr>leftHash := rightHash lb, leftHeight := rightHeight lb,
                                 isDirty := True, leftHeld := False\<rparr>) lr r)
      in setRight (Branch lb ll lr) this False)"
| "rightRotation n = n"

fun childFactor :: "node \<Rightarrow> int" where
  "childFactor (Branch b l r) = balanceFactor b"
| "childFactor (Leaf l) = 0"

fun balance :: "node \<Rightarrow> node" where
  "balance (Branch b l r) =
     (if balanceFactor b = 2 then
        (if childFactor l < 0
         then rightRotation (setLeft (getLeft (Branch b l r)) (leftRotation l) False)
         else rightRotation (getLeft (Branch b l r)))
      else if balanceFactor b = - 2 then
        (if childFactor r > 0
         then leftRotation (setRight (getRight (Branch b l r)) (rightRotation r) False)
         else leftRotation (getRight (Branch b l r)))
      else Branch b l r)"
| "balance (Leaf l) = Leaf l"

text \<open>Whether \<open>balance\<close> answers another node than the one it was called on.\<close>

fun rotates :: "node \<Rightarrow> bool" where
  "rotates (Branch b l r) = (balanceFactor b = 2 \<or> balanceFactor b = - 2)"
| "rotates (Leaf l) = False"

subsection \<open>Insert, find, findPath, leftmost\<close>

fun insert :: "node \<Rightarrow> buffer \<Rightarrow> buffer \<Rightarrow> node" where
  "insert (Leaf l) k v =
     (if compare k (key l) = - 1 then
        setRight (setLeft (Branch (newBranch (key l)) (newLeaf k v) (Leaf l)) (newLeaf k v) False)
                 (Leaf l) False
      else if compare k (key l) = 1 then
        setRight (setLeft (Branch (newBranch k) (Leaf l) (newLeaf k v)) (Leaf l) False)
                 (newLeaf k v) False
      else Leaf (l\<lparr>leafValue := v, isDirty := True\<rparr>))"
| "insert (Branch b l r) k v =
     (if compare k (key b) = - 1
      then balance (setLeft (Branch b l r) (insert l k v) False)
      else balance (setRight (Branch b l r) (insert r k v) False))"

fun find :: "node \<Rightarrow> buffer \<Rightarrow> leaf option" where
  "find (Leaf l) k = (if compare k (key l) = 0 then Some l else None)"
| "find (Branch b l r) k = (if compare k (key b) < 0 then find l k else find r k)"

fun findPath :: "node \<Rightarrow> buffer \<Rightarrow> node list" where
  "findPath (Leaf l) k = [Leaf l]"
| "findPath (Branch b l r) k =
     (if compare k (key b) < 0 then findPath l k else findPath r k) @ [Branch b l r]"

fun leftmost :: "node \<Rightarrow> node" where
  "leftmost (Leaf l) = Leaf l"
| "leftmost (Branch b l r) = leftmost l"

section \<open>The store\<close>

text \<open>
  The three tables of store.ts. The versions table and the orphans table are read by
  range, so they are kept in key order; the node table is read by hash only. A node is
  written in its compact form, which drops the private references, the hash and the
  dirty flag; \<open>getNode\<close> builds a node from it that is clean, holds no child and has
  the looked-up hash. The model keeps with a stored branch the two subtrees as they
  were written (\<open>stored\<close>), where the source keeps their hashes and resolves them
  through the node table on first access.
\<close>

datatype error = TypeError | FalsyValue | KeyDoesNotExist | KeysDoNotMatch
  | ValuesDoNotMatch | InvalidProof | RootHashMismatch | NoTransaction | KeyExists

record tables =
  versionDB :: "(int \<times> buffer) list"
  nodeDB :: "buffer \<rightharpoonup> node"
  orphanDB :: "buffer list"

record store = tables +
  storeVersion :: int
  transactions :: "tables list"

fun stored :: "node \<Rightarrow> node" where
  "stored (Leaf l) = Leaf (l\<lparr>isDirty := False\<rparr>)"
| "stored (Branch b l r) =
     Branch (b\<lparr>isDirty := False, leftHeld := False, rightHeld := False\<rparr>) (stored l) (stored r)"

text \<open>
  \<open>fromCompact\<close> calls the constructor with the fields of the compact form and the hash
  that was looked up.
\<close>

fun fromCompact :: "node \<Rightarrow> buffer \<Rightarrow> node" where
  "fromCompact (Leaf l) h = Leaf (mkLeaf (key l) (leafValue l) (version l) (Some h))"
| "fromCompact (Branch b l r) h =
     Branch (mkBranch (key b) (version b) (leftHeight b) (rightHeight b)
                      (leftHash b) (rightHash b) (Some h)) l r"

fun putSorted :: "'k::linorder \<Rightarrow> 'v \<Rightarrow> ('k \<times> 'v) list \<Rightarrow> ('k \<times> 'v) list" where
  "putSorted k v [] = [(k, v)]"
| "putSorted k v ((k', v') # xs) =
     (if k < k' then (k, v) # (k', v') # xs
      else if k = k' then (k, v) # xs
      else (k', v') # putSorted k v xs)"

definition putKey :: "buffer \<Rightarrow> buffer list \<Rightarrow> buffer list" where
  "putKey k ks = (if k \<in> set ks then ks else insort k ks)"

definition putVersion :: "store \<Rightarrow> int \<Rightarrow> buffer option \<Rightarrow> store" where
  "putVersion s v rootHash =
     s\<lparr>versionDB := putSorted v (case rootHash of Some h \<Rightarrow> h | None \<Rightarrow> []) (versionDB s)\<rparr>"

definition getVersion :: "store \<Rightarrow> int \<Rightarrow> buffer option" where
  "getVersion s v =
     (case map_of (versionDB s) v of
        None \<Rightarrow> None
      | Some h \<Rightarrow> (if length h = 0 then None else Some h))"

definition putNode :: "store \<Rightarrow> node \<Rightarrow> error + store" where
  "putNode s n =
     (case nodeHash n of
        None \<Rightarrow> Inl TypeError
      | Some h \<Rightarrow> Inr (s\<lparr>nodeDB := (nodeDB s)(h \<mapsto> stored n)\<rparr>))"

definition getNode :: "store \<Rightarrow> buffer \<Rightarrow> node option" where
  "getNode s h = (case nodeDB s h of None \<Rightarrow> None | Some c \<Rightarrow> Some (fromCompact c h))"

text \<open>
  \<open>putOrphan\<close>: a missing or zero \<open>toVersion\<close> is replaced by the version before the
  current one. The callers pass \<open>this.hash!\<close> and \<open>this.version!\<close>; where one of them is
  missing the call cannot build the key and raises.
\<close>

definition orphanKey :: "int \<Rightarrow> int \<Rightarrow> buffer \<Rightarrow> buffer" where
  "orphanKey toV fromV h = numberToBuffer toV @ numberToBuffer fromV @ h"

definition putOrphan :: "store \<Rightarrow> buffer option \<Rightarrow> int option \<Rightarrow> int option \<Rightarrow> error + store" where
  "putOrphan s h fromVersion toVersion =
     (case (h, fromVersion) of
        (Some h', Some f) \<Rightarrow>
          (let t = (case toVersion of
                      None \<Rightarrow> storeVersion s - 1
                    | Some t' \<Rightarrow> if t' = 0 then storeVersion s - 1 else t')
           in if f > t then Inr (s\<lparr>nodeDB := (nodeDB s)(h' := None)\<rparr>)
              else Inr (s\<lparr>orphanDB := putKey (orphanKey t f h') (orphanDB s)\<rparr>))
      | _ \<Rightarrow> Inl TypeError)"

section \<open>Remove and persist\<close>

text \<open>
  \<open>remove\<close> answers nothing when the subtree is gone, and otherwise the new root of the
  subtree; the model adds whether that root is the node itself or another node, which
  the setter of the parent needs. \<open>leftmost\<close> walks through the getters, so it leaves
  the left spine held.
\<close>

datatype removal = Removed | This node | Another node

fun holdLeftmost :: "node \<Rightarrow> node" where
  "holdLeftmost (Leaf l) = Leaf l"
| "holdLeftmost (Branch b l r) = Branch (b\<lparr>leftHeld := True\<rparr>) (holdLeftmost l) r"

fun setKey :: "node \<Rightarrow> buffer \<Rightarrow> node" where
  "setKey (Branch b l r) k = Branch (b\<lparr>key := k\<rparr>) l r"
| "setKey (Leaf l) k = Leaf (l\<lparr>key := k\<rparr>)"

definition balanced :: "node \<Rightarrow> removal" where
  "balanced t = (if rotates t then Another (balance t) else This (balance t))"

fun remove :: "store \<Rightarrow> node \<Rightarrow> buffer \<Rightarrow> error + (removal \<times> store)" where
  "remove s (Leaf l) k =
     (if compare k (key l) = 0 then
        (case putOrphan s (hash l) (version l) None of
           Inl e \<Rightarrow> Inl e
         | Inr s' \<Rightarrow> Inr (Removed, s'))
      else Inr (This (Leaf l), s))"
| "remove s (Branch b l r) k =
     (if compare k (key b) < 0 then
        (case remove s l k of
           Inl e \<Rightarrow> Inl e
         | Inr (Removed, s1) \<Rightarrow>
             (case putOrphan s1 (hash b) (version b) None of
                Inl e \<Rightarrow> Inl e
              | Inr s2 \<Rightarrow> Inr (Another r, s2))
         | Inr (This n, s1) \<Rightarrow> Inr (balanced (setLeft (Branch b l r) n True), s1)
         | Inr (Another n, s1) \<Rightarrow> Inr (balanced (setLeft (Branch b l r) n False), s1))
      else
        (case remove s r k of
           Inl e \<Rightarrow> Inl e
         | Inr (Removed, s1) \<Rightarrow>
             (case putOrphan s1 (hash b) (version b) None of
                Inl e \<Rightarrow> Inl e
              | Inr s2 \<Rightarrow> Inr (Another l, s2))
         | Inr (This n, s1) \<Rightarrow>
             Inr (balanced
                   (if compare k (key b) < 1
                    then setKey (setRight (Branch b l r) (holdLeftmost n) True) (nodeKey (leftmost n))
                    else setRight (Branch b l r) n True), s1)
         | Inr (Another n, s1) \<Rightarrow>
             Inr (balanced
                   (if compare k (key b) < 1
                    then setKey (setRight (Branch b l r) (holdLeftmost n) False) (nodeKey (leftmost n))
                    else setRight (Branch b l r) n False), s1)))"

text \<open>
  \<open>persist\<close> writes what is dirty. A held child is persisted first, under the current
  version of the store, and its hash is recorded; a dirty node gives up its former
  hash as an orphan, takes the version, is hashed and stored. The model answers the
  node as it is after the call; the hash that the source returns is its \<open>hash\<close>.
\<close>

fun persist :: "(buffer \<Rightarrow> buffer) \<Rightarrow> store \<Rightarrow> node \<Rightarrow> int \<Rightarrow> error + (node \<times> store)" where
  "persist H s (Leaf l) ver =
     (if isDirty l then
        (case (case hash l of
                 None \<Rightarrow> Inr s
               | Some h \<Rightarrow> putOrphan s (Some h) (version l) None) of
           Inl e \<Rightarrow> Inl e
         | Inr s1 \<Rightarrow>
             (let l' = l\<lparr>version := Some ver,
                         hash := Some (sha256 H [numberToBuffer ver, key l, leafValue l]),
                         isDirty := False\<rparr>
              in case putNode s1 (Leaf l') of
                   Inl e \<Rightarrow> Inl e
                 | Inr s2 \<Rightarrow> Inr (Leaf l', s2)))
      else Inr (Leaf l, s))"
| "persist H s (Branch b l r) ver =
     (case (if leftHeld b then persist H s l (storeVersion s) else Inr (l, s)) of
        Inl e \<Rightarrow> Inl e
      | Inr (l', s1) \<Rightarrow>
     (case (if rightHeld b then persist H s1 r (storeVersion s1) else Inr (r, s1)) of
        Inl e \<Rightarrow> Inl e
      | Inr (r', s2) \<Rightarrow>
     (let b1 = b\<lparr>leftHash := (if leftHeld b then nodeHash l' else leftHash b),
                 rightHash := (if rightHeld b then nodeHash r' else rightHash b)\<rparr>
      in if isDirty b1 then
        (case (case hash b of
                 None \<Rightarrow> Inr s2
               | Some h \<Rightarrow> putOrphan s2 (Some h) (version b) None) of
           Inl e \<Rightarrow> Inl e
         | Inr s3 \<Rightarrow>
             (case (leftHash b1, rightHash b1) of
                (Some lh, Some rh) \<Rightarrow>
                  (let b2 = b1\<lparr>version := Some ver,
                               hash := Some (sha256 H [numberToBuffer ver, lh, rh]),
                               isDirty := False\<rparr>
                   in case putNode s3 (Branch b2 l' r') of
                        Inl e \<Rightarrow> Inl e
                      | Inr s4 \<Rightarrow> Inr (Branch b2 l' r', s4))
              | _ \<Rightarrow> Inl TypeError))
      else Inr (Branch b1 l' r', s2))))"

section \<open>The tree facade\<close>

text \<open>
  Values are packed by the codec before they reach the tree; the codec and the test
  for a falsy value belong to the runtime and are parameters.
\<close>

record 'v codec =
  pack :: "'v \<Rightarrow> buffer"
  unpack :: "buffer \<Rightarrow> 'v"
  falsy :: "'v \<Rightarrow> bool"

record tree =
  treeStore :: store
  rootHash :: "buffer option"

definition root :: "tree \<Rightarrow> node option" where
  "root t = (case rootHash t of None \<Rightarrow> None | Some h \<Rightarrow> getNode (treeStore t) h)"

text \<open>\<open>Store.transaction\<close> advances the version when no transaction is open.\<close>

definition transaction :: "store \<Rightarrow> store" where
  "transaction s =
     (if length (transactions s) = 0 then s\<lparr>storeVersion := storeVersion s + 1\<rparr> else s)"

definition treeInsert ::
    "(buffer \<Rightarrow> buffer) \<Rightarrow> 'v codec \<Rightarrow> tree \<Rightarrow> buffer \<Rightarrow> 'v \<Rightarrow> error + tree" where
  "treeInsert H cd t k v =
     (if falsy cd v then Inl FalsyValue
      else
        (let s0 = transaction (treeStore t);
             n = (case root (t\<lparr>treeStore := s0\<rparr>) of
                    Some n0 \<Rightarrow> insert n0 k (pack cd v)
                  | None \<Rightarrow> newLeaf k (pack cd v))
         in case persist H s0 n (storeVersion s0) of
              Inl e \<Rightarrow> Inl e
            | Inr (n', s1) \<Rightarrow>
                Inr \<lparr>treeStore = putVersion s1 (storeVersion s1) (nodeHash n'),
                     rootHash = nodeHash n'\<rparr>))"

definition treeRemove :: "(buffer \<Rightarrow> buffer) \<Rightarrow> tree \<Rightarrow> buffer \<Rightarrow> error + tree" where
  "treeRemove H t k =
     (let s0 = transaction (treeStore t);
          emptied = (\<lambda>s. Inr \<lparr>treeStore = putVersion s (storeVersion s) None, rootHash = None\<rparr>);
          kept = (\<lambda>n s.
            case persist H s n (storeVersion s) of
              Inl e \<Rightarrow> Inl e
            | Inr (n', s') \<Rightarrow>
                Inr \<lparr>treeStore = putVersion s' (storeVersion s') (nodeHash n'),
                     rootHash = nodeHash n'\<rparr>)
      in case root (t\<lparr>treeStore := s0\<rparr>) of
           None \<Rightarrow> emptied s0
         | Some n0 \<Rightarrow>
             (case remove s0 n0 k of
                Inl e \<Rightarrow> Inl e
              | Inr (Removed, s1) \<Rightarrow> emptied s1
              | Inr (This n, s1) \<Rightarrow> kept n s1
              | Inr (Another n, s1) \<Rightarrow> kept n s1))"


definition treeHas :: "tree \<Rightarrow> buffer \<Rightarrow> bool" where
  "treeHas t k = (case root t of None \<Rightarrow> False | Some n \<Rightarrow> find n k \<noteq> None)"

text \<open>A fresh tree over an empty database.\<close>

definition emptyStore :: store where
  "emptyStore = \<lparr>versionDB = [], nodeDB = Map.empty, orphanDB = [],
                 storeVersion = 0, transactions = []\<rparr>"

definition emptyTree :: tree where
  "emptyTree = \<lparr>treeStore = emptyStore, rootHash = getVersion emptyStore (storeVersion emptyStore)\<rparr>"


section \<open>Transactions and pruning\<close>

text \<open>
  A started transaction keeps the key-value engine inside a write transaction until it
  is committed or reverted. The engine belongs to the runtime; what the model keeps of
  it is that a revert gives back the tables as they were when the transaction started,
  so each open transaction remembers them.
\<close>

definition snapshot :: "store \<Rightarrow> tables" where
  "snapshot s = \<lparr>versionDB = versionDB s, nodeDB = nodeDB s, orphanDB = orphanDB s\<rparr>"

definition restore :: "store \<Rightarrow> tables \<Rightarrow> store" where
  "restore s tb = s\<lparr>versionDB := versionDB tb, nodeDB := nodeDB tb, orphanDB := orphanDB tb\<rparr>"

definition startTransaction :: "store \<Rightarrow> store" where
  "startTransaction s =
     (let s' = transaction s in s'\<lparr>transactions := transactions s' @ [snapshot s']\<rparr>)"

definition commitTransaction :: "store \<Rightarrow> error + store" where
  "commitTransaction s =
     (if transactions s = [] then Inl NoTransaction
      else Inr (s\<lparr>transactions := butlast (transactions s)\<rparr>))"

definition revertTransaction :: "store \<Rightarrow> error + store" where
  "revertTransaction s =
     (if transactions s = [] then Inl NoTransaction
      else
        (let tx = last (transactions s);
             s1 = s\<lparr>transactions := butlast (transactions s)\<rparr>;
             s2 = (if length (transactions s1) = 0
                   then s1\<lparr>storeVersion := storeVersion s1 - 1\<rparr> else s1)
         in Inr (restore s2 tx)))"

text \<open>
  \<open>prune\<close> looks for the highest version at or below \<open>fromVersion - 1\<close>, walks the
  orphan keys from \<open>numberToBuffer (fromVersion - 1)\<close> up to, and without,
  \<open>numberToBuffer (toVersion + 1)\<close> in the bytewise order of the table, and removes
  the versions of the range. The keys of the walk are those present when it starts.
\<close>

definition pruneOrphan :: "int \<Rightarrow> buffer \<Rightarrow> store \<Rightarrow> store" where
  "pruneOrphan previousVersion k s =
     (let fromV = numberfromBuffer (take 4 (drop 4 k));
          h = drop 8 k;
          s1 = s\<lparr>orphanDB := removeAll k (orphanDB s)\<rparr>
      in if previousVersion < fromV then s1\<lparr>nodeDB := (nodeDB s1)(h := None)\<rparr>
         else (case putOrphan s1 (Some h) (Some fromV) (Some previousVersion) of
                 Inr s2 \<Rightarrow> s2
               | Inl e \<Rightarrow> s1))"

definition prune :: "store \<Rightarrow> int \<Rightarrow> int \<Rightarrow> store" where
  "prune s toVersion fromVersion =
     (let previousVersion =
            (case filter (\<lambda>v. v \<le> fromVersion - 1) (map fst (versionDB s)) of
               [] \<Rightarrow> 0
             | vs \<Rightarrow> last vs);
          ks = filter (\<lambda>k. numberToBuffer (fromVersion - 1) \<le> k \<and> k < numberToBuffer (toVersion + 1))
                      (orphanDB s);
          s1 = fold (pruneOrphan previousVersion) ks s
      in s1\<lparr>versionDB := filter (\<lambda>(v, h). \<not> (fromVersion \<le> v \<and> v < toVersion + 1)) (versionDB s1)\<rparr>)"

section \<open>Proofs\<close>

type_synonym proofLeaf = "buffer \<times> buffer \<times> buffer"
type_synonym proofBranch = "buffer \<times> buffer option \<times> buffer option"
type_synonym treeProof = "proofLeaf \<times> proofBranch list"

text \<open>
  One entry of a proof for each branch of the path; the path is cast to branches
  without a test, and a leaf there has neither hash. A node without a version cannot
  be encoded.
\<close>

fun proofStep :: "buffer \<Rightarrow> node \<Rightarrow> proofBranch option" where
  "proofStep k (Branch b l r) =
     (case version b of
        None \<Rightarrow> None
      | Some v \<Rightarrow>
          Some (if compare k (key b) < 0
                then (numberToBuffer v, None, rightHash b)
                else (numberToBuffer v, leftHash b, None)))"
| "proofStep k (Leaf l) =
     (case version l of None \<Rightarrow> None | Some v \<Rightarrow> Some (numberToBuffer v, None, None))"

fun proofSteps :: "buffer \<Rightarrow> node list \<Rightarrow> proofBranch list option" where
  "proofSteps k [] = Some []"
| "proofSteps k (n # ns) =
     (case proofStep k n of
        None \<Rightarrow> None
      | Some e \<Rightarrow> (case proofSteps k ns of None \<Rightarrow> None | Some es \<Rightarrow> Some (e # es)))"

definition getProof :: "tree \<Rightarrow> buffer \<Rightarrow> error + treeProof" where
  "getProof t k =
     (case root t of
        None \<Rightarrow> Inl KeyDoesNotExist
      | Some n \<Rightarrow>
          (case findPath n k of
             [] \<Rightarrow> Inl KeyDoesNotExist
           | Branch b l r # path \<Rightarrow> Inl KeyDoesNotExist
           | Leaf lf # path \<Rightarrow>
               (case version lf of
                  None \<Rightarrow> Inl TypeError
                | Some v \<Rightarrow>
                    (case proofSteps k path of
                       None \<Rightarrow> Inl TypeError
                     | Some bs \<Rightarrow> Inr ((numberToBuffer v, k, leafValue lf), bs)))))"



subsection \<open>ics23.ts\<close>

record existenceProof =
  epKey :: buffer
  epValue :: buffer
  epLeafPrefix :: buffer
  epPath :: "(buffer \<times> buffer) list"

record nonExistenceProof =
  nepKey :: buffer
  nepLeft :: "existenceProof option"
  nepRight :: "existenceProof option"

definition getExistenceProof :: "tree \<Rightarrow> buffer \<Rightarrow> error + existenceProof" where
  "getExistenceProof t k =
     (case getProof t k of
        Inl e \<Rightarrow> Inl e
      | Inr ((ver, pk, pv), branches) \<Rightarrow>
          Inr \<lparr>epKey = k, epValue = pv, epLeafPrefix = ver,
               epPath = map (\<lambda>(ver, lh, rh).
                               ((case lh of Some l \<Rightarrow> ver @ l | None \<Rightarrow> ver),
                                (case rh of Some r \<Rightarrow> r | None \<Rightarrow> []))) branches\<rparr>)"

fun findLeftNeighbor :: "buffer \<Rightarrow> node \<Rightarrow> node option" where
  "findLeftNeighbor k (Leaf l) = None"
| "findLeftNeighbor k (Branch b l r) =
     (if compare k (key b) = 1
      then (case findLeftNeighbor k r of Some n \<Rightarrow> Some n | None \<Rightarrow> Some (Branch b l r))
      else findLeftNeighbor k l)"

fun findRightNeighbor :: "buffer \<Rightarrow> node \<Rightarrow> node option" where
  "findRightNeighbor k (Leaf l) = None"
| "findRightNeighbor k (Branch b l r) =
     (if compare k (key b) = - 1
      then (case findRightNeighbor k l of Some n \<Rightarrow> Some n | None \<Rightarrow> Some (Branch b l r))
      else findRightNeighbor k r)"

definition neighborProof :: "tree \<Rightarrow> node option \<Rightarrow> error + existenceProof option" where
  "neighborProof t n =
     (case n of
        None \<Rightarrow> Inr None
      | Some m \<Rightarrow> (case getExistenceProof t (nodeKey m) of Inl e \<Rightarrow> Inl e | Inr p \<Rightarrow> Inr (Some p)))"

definition getNonExistenceProof :: "tree \<Rightarrow> buffer \<Rightarrow> error + nonExistenceProof" where
  "getNonExistenceProof t k =
     (if treeHas t k then Inl KeyExists
      else
        (let left = (case root t of None \<Rightarrow> None | Some n \<Rightarrow> findLeftNeighbor k n);
             right = (case root t of None \<Rightarrow> None | Some n \<Rightarrow> findRightNeighbor k n)
         in case neighborProof t left of
              Inl e \<Rightarrow> Inl e
            | Inr lp \<Rightarrow>
                (case neighborProof t right of
                   Inl e \<Rightarrow> Inl e
                 | Inr rp \<Rightarrow> Inr \<lparr>nepKey = k, nepLeft = lp, nepRight = rp\<rparr>)))"

section \<open>Runs\<close>

text \<open>A run applies insertions and removals, one after the other, to a tree.\<close>

datatype 'v operation = Insert buffer 'v | Remove buffer

fun applyOp :: "(buffer \<Rightarrow> buffer) \<Rightarrow> 'v codec \<Rightarrow> tree \<Rightarrow> 'v operation \<Rightarrow> error + tree" where
  "applyOp H cd t (Insert k v) = treeInsert H cd t k v"
| "applyOp H cd t (Remove k) = treeRemove H t k"

fun run :: "(buffer \<Rightarrow> buffer) \<Rightarrow> 'v codec \<Rightarrow> tree \<Rightarrow> 'v operation list \<Rightarrow> error + tree" where
  "run H cd t [] = Inr t"
| "run H cd t (x # xs) =
     (case applyOp H cd t x of Inl e \<Rightarrow> Inl e | Inr t' \<Rightarrow> run H cd t' xs)"

section \<open>Invariants\<close>

fun keysOf :: "node \<Rightarrow> buffer set" where
  "keysOf (Leaf l) = {key l}"
| "keysOf (Branch b l r) = keysOf l \<union> keysOf r"

fun shaped :: "node \<Rightarrow> bool" where
  "shaped (Leaf l) = True"
| "shaped (Branch b l r) =
     (shaped l \<and> shaped r \<and> leftHeight b = height l \<and> rightHeight b = height r \<and>
      key b = nodeKey (leftmost r) \<and>
      (\<forall>k \<in> keysOf l. k < key b) \<and> (\<forall>k \<in> keysOf r. key b \<le> k))"

fun avl :: "node \<Rightarrow> bool" where
  "avl (Leaf l) = True"
| "avl (Branch b l r) =
     (avl l \<and> avl r \<and> leftHeight b \<le> rightHeight b + 1 \<and> rightHeight b \<le> leftHeight b + 1)"

fun resultNode :: "removal \<Rightarrow> node option" where
  "resultNode Removed = None"
| "resultNode (This n) = Some n"
| "resultNode (Another n) = Some n"





text \<open>Every node of the node table is in shape and balanced.\<close>

definition storeOk :: "store \<Rightarrow> bool" where
  "storeOk s = (\<forall>h c. nodeDB s h = Some c \<longrightarrow> shaped c \<and> avl c)"

text \<open>A codec for values that are buffers already, none of them falsy, and the hash
  function that answers its input; both serve to run the model on examples.\<close>

definition rawCodec :: "buffer codec" where
  "rawCodec = \<lparr>pack = (\<lambda>v. v), unpack = (\<lambda>b. b), falsy = (\<lambda>v. False)\<rparr>"

definition plainHash :: "buffer \<Rightarrow> buffer" where
  "plainHash b = b"

text \<open>No node of the tree is dirty.\<close>

fun allClean :: "node \<Rightarrow> bool" where
  "allClean (Leaf l) = (\<not> isDirty l)"
| "allClean (Branch b l r) = (\<not> isDirty b \<and> allClean l \<and> allClean r)"

text \<open>What \<open>persist\<close> leaves behind: the node is clean, and so is every child that it
  holds, whose hash it has recorded.\<close>

fun settled :: "node \<Rightarrow> bool" where
  "settled (Leaf l) = (\<not> isDirty l)"
| "settled (Branch b l r) =
     (\<not> isDirty b \<and>
      (leftHeld b \<longrightarrow> settled l \<and> leftHash b = nodeHash l) \<and>
      (rightHeld b \<longrightarrow> settled r \<and> rightHash b = nodeHash r))"

text \<open>
  A node as the node table keeps it: clean, holding no child, with a version and the
  hash of its contents (invariant 3 of the specification), the recorded hashes of the
  two sides being those of the subtrees.
\<close>

fun recorded :: "(buffer \<Rightarrow> buffer) \<Rightarrow> node \<Rightarrow> bool" where
  "recorded H (Leaf l) =
     (\<not> isDirty l \<and> version l \<noteq> None \<and>
      hash l = Some (sha256 H [numberToBuffer (the (version l)), key l, leafValue l]))"
| "recorded H (Branch b l r) =
     (recorded H l \<and> recorded H r \<and> \<not> isDirty b \<and> \<not> leftHeld b \<and> \<not> rightHeld b \<and>
      leftHash b = nodeHash l \<and> rightHash b = nodeHash r \<and>
      version b \<noteq> None \<and> nodeHash l \<noteq> None \<and> nodeHash r \<noteq> None \<and>
      hash b = Some (sha256 H [numberToBuffer (the (version b)),
                               the (nodeHash l), the (nodeHash r)]))"

text \<open>
  A node in memory while an operation runs: a side that is not held is as the node
  table keeps it, a hash comes with a version, and a clean node has clean children and
  the hash of its contents.
\<close>

fun tidy :: "(buffer \<Rightarrow> buffer) \<Rightarrow> node \<Rightarrow> bool" where
  "tidy H (Leaf l) =
     ((hash l \<noteq> None \<longrightarrow> version l \<noteq> None) \<and> (\<not> isDirty l \<longrightarrow> recorded H (Leaf l)))"
| "tidy H (Branch b l r) =
     (tidy H l \<and> tidy H r \<and> (hash b \<noteq> None \<longrightarrow> version b \<noteq> None) \<and>
      (\<not> leftHeld b \<longrightarrow> recorded H l \<and> leftHash b = nodeHash l) \<and>
      (\<not> rightHeld b \<longrightarrow> recorded H r \<and> rightHash b = nodeHash r) \<and>
      (\<not> isDirty b \<longrightarrow>
         \<not> nodeDirty l \<and> \<not> nodeDirty r \<and>
         version b \<noteq> None \<and> nodeHash l \<noteq> None \<and> nodeHash r \<noteq> None \<and>
         hash b = Some (sha256 H [numberToBuffer (the (version b)),
                                  the (nodeHash l), the (nodeHash r)])))"

text \<open>Every node of the node table is as \<open>recorded\<close> says and sits under its hash.\<close>

definition storeRec :: "(buffer \<Rightarrow> buffer) \<Rightarrow> store \<Rightarrow> bool" where
  "storeRec H s = (\<forall>h c. nodeDB s h = Some c \<longrightarrow> recorded H c \<and> nodeHash c = Some h)"



text \<open>The values of the leaves; in a tree that \<open>treeInsert\<close> has built they are
  packed values.\<close>

fun valsOf :: "node \<Rightarrow> buffer set" where
  "valsOf (Leaf l) = {leafValue l}"
| "valsOf (Branch b l r) = valsOf l \<union> valsOf r"

definition storePacked :: "'v codec \<Rightarrow> store \<Rightarrow> bool" where
  "storePacked cd s = (\<forall>h c. nodeDB s h = Some c \<longrightarrow> valsOf c \<subseteq> range (pack cd))"


text \<open>The pairs of key and value that the leaves hold.\<close>

fun entries :: "node \<Rightarrow> (buffer \<times> buffer) set" where
  "entries (Leaf l) = {(key l, leafValue l)}"
| "entries (Branch b l r) = entries l \<union> entries r"

fun resultEntries :: "removal \<Rightarrow> (buffer \<times> buffer) set" where
  "resultEntries Removed = {}"
| "resultEntries (This n) = entries n"
| "resultEntries (Another n) = entries n"

definition treeEntries :: "tree \<Rightarrow> (buffer \<times> buffer) set" where
  "treeEntries t = (case root t of None \<Rightarrow> {} | Some n \<Rightarrow> entries n)"

text \<open>
  The value that a sequence of operations leaves for a key: the operations are read in
  order, an insertion of the key sets the value and a removal of the key clears it, so
  that the most recent of them decides.
\<close>

fun latestStep :: "buffer \<Rightarrow> 'v option \<Rightarrow> 'v operation \<Rightarrow> 'v option" where
  "latestStep k acc (Insert k' v) = (if k' = k then Some v else acc)"
| "latestStep k acc (Remove k') = (if k' = k then None else acc)"

definition latest :: "'v operation list \<Rightarrow> buffer \<Rightarrow> 'v option" where
  "latest xs k = foldl (latestStep k) None xs"

text \<open>
  Content addressing (invariant 4 of the specification): every node of the tree is
  found in the node table under its hash. A run is \<open>steady\<close> when this holds before
  and after each of its operations, that is, when no two nodes of one of its trees
  share a hash.
\<close>

fun inTable :: "(buffer \<rightharpoonup> node) \<Rightarrow> node \<Rightarrow> bool" where
  "inTable db (Leaf l) =
     (case hash l of None \<Rightarrow> False | Some h \<Rightarrow> db h = Some (Leaf l))"
| "inTable db (Branch b l r) =
     ((case hash b of None \<Rightarrow> False | Some h \<Rightarrow> db h = Some (Branch b l r)) \<and>
      inTable db l \<and> inTable db r)"

definition addressed :: "tree \<Rightarrow> bool" where
  "addressed t =
     (case rootHash t of
        None \<Rightarrow> True
      | Some h \<Rightarrow>
          (case nodeDB (treeStore t) h of
             None \<Rightarrow> False
           | Some c \<Rightarrow> inTable (nodeDB (treeStore t)) c))"

fun steady :: "(buffer \<Rightarrow> buffer) \<Rightarrow> 'v codec \<Rightarrow> tree \<Rightarrow> 'v operation list \<Rightarrow> bool" where
  "steady H cd t [] = addressed t"
| "steady H cd t (x # xs) =
     (addressed t \<and>
      (case applyOp H cd t x of Inl e \<Rightarrow> False | Inr t' \<Rightarrow> steady H cd t' xs))"

section \<open>Rotations, insertion and removal keep the tree in shape\<close>




lemma keysOf_leftRotation [simp]: "keysOf (leftRotation n) = keysOf n"
  by (induction n rule: leftRotation.induct) (auto simp: Let_def)

lemma keysOf_rightRotation [simp]: "keysOf (rightRotation n) = keysOf n"
  by (induction n rule: rightRotation.induct) (auto simp: Let_def)

lemma leftmost_leftRotation [simp]: "leftmost (leftRotation n) = leftmost n"
  by (induction n rule: leftRotation.induct) (auto simp: Let_def)

lemma leftmost_rightRotation [simp]: "nodeKey (leftmost (rightRotation n)) = nodeKey (leftmost n)"
  by (induction n rule: rightRotation.induct) (auto simp: Let_def)



lemma height_leftRotation:
  "shaped (Branch b l (Branch rb rl rr)) \<Longrightarrow>
   height (leftRotation (Branch b l (Branch rb rl rr))) = 1 + max (1 + max (height l) (height rl)) (height rr)"
  by (auto simp: Let_def)

lemma height_rightRotation:
  "shaped (Branch b (Branch lb ll lr) r) \<Longrightarrow>
   height (rightRotation (Branch b (Branch lb ll lr) r)) = 1 + max (height ll) (1 + max (height lr) (height r))"
  by (auto simp: Let_def)

lemma keysOf_balance [simp]: "keysOf (balance n) = keysOf n"
  by (cases n) (auto simp: Let_def)



lemma shaped_getLeft [simp]: "shaped (getLeft n) = shaped n" by (cases n) auto
lemma shaped_getRight [simp]: "shaped (getRight n) = shaped n" by (cases n) auto


lemma leftmost_balance [simp]: "nodeKey (leftmost (balance n)) = nodeKey (leftmost n)"
  by (cases n) (auto simp del: leftRotation.simps rightRotation.simps)

lemma avl_getLeft [simp]: "avl (getLeft n) = avl n" by (cases n) auto
lemma avl_getRight [simp]: "avl (getRight n) = avl n" by (cases n) auto









lemma resultNode_balanced [simp]: "resultNode (balanced t) = Some (balance t)"
  by (simp add: balanced_def)

lemma holdLeftmost_simps [simp]:
  "keysOf (holdLeftmost n) = keysOf n" "height (holdLeftmost n) = height n"
  "leftmost (holdLeftmost n) = leftmost n"
  by (induction n) auto

lemma shaped_holdLeftmost [simp]: "shaped (holdLeftmost n) = shaped n"
  by (induction n) auto

lemma avl_holdLeftmost [simp]: "avl (holdLeftmost n) = avl n"
  by (induction n) auto







section \<open>The node table holds trees in shape\<close>









lemma shaped_children: "shaped (Branch b l r) \<Longrightarrow> shaped l \<and> shaped r" by simp
lemma avl_children: "avl (Branch b l r) \<Longrightarrow> avl l \<and> avl r" by simp





lemma storeOk_transaction [simp]: "storeOk (transaction s) = storeOk s"
  by (simp add: transaction_def storeOk_def)

lemma nodeDB_transaction [simp]: "nodeDB (transaction s) = nodeDB s"
  by (simp add: transaction_def)

lemma storeOk_putVersion [simp]: "storeOk (putVersion s v h) = storeOk s"
  by (simp add: putVersion_def storeOk_def)

lemma root_treeStore_transaction [simp]:
  "root (t\<lparr>treeStore := transaction (treeStore t)\<rparr>) = root t"
  by (simp add: root_def getNode_def split: option.splits)

lemma shaped_newLeaf [simp]: "shaped (newLeaf k v)" "avl (newLeaf k v)"
  by (simp_all add: newLeaf_def)






section \<open>The version counter and what persist leaves behind\<close>

lemma putOrphan_version:
  "putOrphan s h f t = Inr s' \<Longrightarrow> storeVersion s' = storeVersion s \<and> transactions s' = transactions s"
  by (auto simp: putOrphan_def Let_def split: option.splits if_splits)

lemma putNode_version:
  "putNode s n = Inr s' \<Longrightarrow> storeVersion s' = storeVersion s \<and> transactions s' = transactions s"
  by (auto simp: putNode_def split: option.splits)

lemma persist_version:
  "persist H s n v = Inr (n', s') \<Longrightarrow> storeVersion s' = storeVersion s \<and> transactions s' = transactions s"
proof (induction n arbitrary: s v n' s')
  case (Leaf l)
  then show ?case
    by (auto simp: Let_def split: if_splits sum.splits option.splits dest!: putOrphan_version putNode_version)
next
  case (Branch b l r)
  from Branch.prems obtain l' s1 where
    l: "(if leftHeld b then persist H s l (storeVersion s) else Inr (l, s)) = Inr (l', s1)"
    by (auto split: sum.splits)
  with Branch.prems obtain r' s2 where
    r: "(if rightHeld b then persist H s1 r (storeVersion s1) else Inr (r, s1)) = Inr (r', s2)"
    by (auto split: sum.splits)
  have s1: "storeVersion s1 = storeVersion s \<and> transactions s1 = transactions s"
    using l Branch.IH(1) by (auto split: if_splits)
  have s2: "storeVersion s2 = storeVersion s1 \<and> transactions s2 = transactions s1"
    using r Branch.IH(2) by (auto split: if_splits)
  show ?case using Branch.prems l r s1 s2
    by (auto simp: Let_def split: if_splits sum.splits option.splits dest!: putOrphan_version putNode_version)
qed

lemma remove_version:
  "remove s n k = Inr (res, s') \<Longrightarrow> storeVersion s' = storeVersion s \<and> transactions s' = transactions s"
proof (induction n arbitrary: s res s')
  case (Leaf l)
  then show ?case by (auto split: if_splits sum.splits dest!: putOrphan_version)
next
  case (Branch b l r)
  show ?case
  proof (cases "compare k (key b) < 0")
    case True
    then obtain res1 s1 where r1: "remove s l k = Inr (res1, s1)"
      using Branch.prems(1) by (auto split: sum.splits)
    have "storeVersion s' = storeVersion s1 \<and> transactions s' = transactions s1"
      using Branch.prems r1 True
      by (cases res1) (auto split: sum.splits dest!: putOrphan_version)
    then show ?thesis using Branch.IH(1)[OF r1] by simp
  next
    case False
    then obtain res1 s1 where r1: "remove s r k = Inr (res1, s1)"
      using Branch.prems(1) by (auto split: sum.splits)
    have "storeVersion s' = storeVersion s1 \<and> transactions s' = transactions s1"
      using Branch.prems r1 False
      by (cases res1) (auto split: sum.splits dest!: putOrphan_version)
    then show ?thesis using Branch.IH(2)[OF r1] by simp
  qed
qed

lemma treeInsert_version:
  "treeInsert H cd t k v = Inr t' \<Longrightarrow>
   storeVersion (treeStore t') = storeVersion (transaction (treeStore t)) \<and>
   transactions (treeStore t') = transactions (treeStore t)"
  by (auto simp: treeInsert_def Let_def putVersion_def transaction_def
      split: if_splits sum.splits dest!: persist_version)

lemma treeRemove_version:
  "treeRemove H t k = Inr t' \<Longrightarrow>
   storeVersion (treeStore t') = storeVersion (transaction (treeStore t)) \<and>
   transactions (treeStore t') = transactions (treeStore t)"
  by (auto simp: treeRemove_def Let_def putVersion_def
      split: if_splits sum.splits option.splits removal.splits dest!: persist_version remove_version)
    (auto simp: transaction_def)

lemma settled_persist: "settled n \<Longrightarrow> persist H s n v = Inr (n, s)"
  by (induction n arbitrary: s v) (auto simp: Let_def)

lemma persist_settled: "persist H s n v = Inr (n', s') \<Longrightarrow> settled n'"
proof (induction n arbitrary: s v n' s')
  case (Leaf l)
  then show ?case by (auto simp: Let_def split: if_splits sum.splits option.splits)
next
  case (Branch b l r)
  from Branch.prems obtain l' s1 where
    l: "(if leftHeld b then persist H s l (storeVersion s) else Inr (l, s)) = Inr (l', s1)"
    by (auto split: sum.splits)
  with Branch.prems obtain r' s2 where
    r: "(if rightHeld b then persist H s1 r (storeVersion s1) else Inr (r, s1)) = Inr (r', s2)"
    by (auto split: sum.splits)
  have "leftHeld b \<Longrightarrow> settled l'" using l Branch.IH(1) by (auto split: if_splits)
  moreover have "rightHeld b \<Longrightarrow> settled r'" using r Branch.IH(2) by (auto split: if_splits)
  ultimately show ?case using Branch.prems l r
    by (auto simp: Let_def split: if_splits sum.splits option.splits)
qed

lemma allClean_persist:
  "allClean n \<Longrightarrow> \<exists>n'. persist H s n v = Inr (n', s) \<and> nodeHash n' = nodeHash n \<and> allClean n'"
proof (induction n arbitrary: s v)
  case (Leaf l) then show ?case by simp
next
  case (Branch b l r)
  obtain l' where l: "persist H s l (storeVersion s) = Inr (l', s)" "allClean l'"
    using Branch.IH(1)[of s "storeVersion s"] Branch.prems by auto
  obtain r' where r: "persist H s r (storeVersion s) = Inr (r', s)" "allClean r'"
    using Branch.IH(2)[of s "storeVersion s"] Branch.prems by auto
  show ?case using l r Branch.prems by (auto simp: Let_def)
qed

lemma fromCompact_clean: "\<not> nodeDirty (fromCompact c h)"
  by (cases c) (auto simp: mkLeaf_def mkBranch_def)

section \<open>Hashes and dirty flags in memory\<close>












lemma dirty_leftRotation: "nodeDirty n \<Longrightarrow> nodeDirty (leftRotation n)"
  by (induction n rule: leftRotation.induct) (auto simp: Let_def)

lemma dirty_rightRotation: "nodeDirty n \<Longrightarrow> nodeDirty (rightRotation n)"
  by (induction n rule: rightRotation.induct) (auto simp: Let_def)

lemma dirty_balance: "nodeDirty n \<Longrightarrow> nodeDirty (balance n)"
  by (cases n) (auto intro!: dirty_leftRotation dirty_rightRotation simp del: leftRotation.simps rightRotation.simps)

lemma dirty_insert: "nodeDirty (insert n k v)"
  by (induction n)
     (auto simp: newLeaf_def newBranch_def mkLeaf_def mkBranch_def intro!: dirty_balance simp del: balance.simps)

section \<open>Removal and persist on tidy trees\<close>

lemma nodeHash_holdLeftmost [simp]: "nodeHash (holdLeftmost n) = nodeHash n"
  by (cases n) auto

lemma nodeDirty_holdLeftmost [simp]: "nodeDirty (holdLeftmost n) = nodeDirty n"
  by (cases n) auto


lemma tidy_setKey_branch: "tidy H (Branch b l r) \<Longrightarrow> tidy H (setKey (Branch b l r) k)"
  by auto



lemma nodeHash_setLeft [simp]: "nodeHash (setLeft n m same) = nodeHash n" by (cases n) auto
lemma nodeHash_setRight [simp]: "nodeHash (setRight n m same) = nodeHash n" by (cases n) auto
lemma nodeHash_setKey [simp]: "nodeHash (setKey n k) = nodeHash n" by (cases n) auto




lemma nodeHash_stored [simp]: "nodeHash (stored n) = nodeHash n" by (cases n) auto








section \<open>The node table across a run\<close>



lemma storeRec_transaction [simp]: "storeRec H (transaction s) = storeRec H s"
  by (simp add: transaction_def storeRec_def)

lemma storeRec_putVersion [simp]: "storeRec H (putVersion s v h) = storeRec H s"
  by (simp add: putVersion_def storeRec_def)

lemma tidy_newLeaf [simp]: "tidy H (newLeaf k v)"
  by (simp add: newLeaf_def mkLeaf_def)










section \<open>Leaves hold packed values\<close>


lemma valsOf_leftRotation [simp]: "valsOf (leftRotation n) = valsOf n"
  by (induction n rule: leftRotation.induct) (auto simp: Let_def)

lemma valsOf_rightRotation [simp]: "valsOf (rightRotation n) = valsOf n"
  by (induction n rule: rightRotation.induct) (auto simp: Let_def)

lemma valsOf_balance [simp]: "valsOf (balance n) = valsOf n"
  by (cases n) (auto simp: Let_def)

lemma valsOf_holdLeftmost [simp]: "valsOf (holdLeftmost n) = valsOf n"
  by (induction n) auto



lemma valsOf_setLeft [simp]: "valsOf (setLeft (Branch b l r) n same) = valsOf n \<union> valsOf r"
  by simp

lemma valsOf_setRight [simp]: "valsOf (setRight (Branch b l r) n same) = valsOf l \<union> valsOf n"
  by simp

lemma valsOf_setKey [simp]: "valsOf (setKey n k) = valsOf n"
  by (cases n) auto





section \<open>The path of a proof\<close>


lemma storePacked_transaction [simp]: "storePacked cd (transaction s) = storePacked cd s"
  by (simp add: transaction_def storePacked_def)

lemma storePacked_putVersion [simp]: "storePacked cd (putVersion s v h) = storePacked cd s"
  by (simp add: putVersion_def storePacked_def)















section \<open>Claims about balance, split keys, proofs and pruning\<close>


lemma numberToBuffer_small:
  "numberToBuffer 0 = [0, 0, 0, 0]" "numberToBuffer 1 = [0, 0, 0, 1]"
  "numberToBuffer 2 = [0, 0, 0, 2]" "numberToBuffer 3 = [0, 0, 0, 3]"
  by (simp_all add: numberToBuffer_def padStart_def eval_nat_numeral)

lemma less_buffer_code:
  "((x::nat) # xs < y # ys) = (x < y \<or> x = y \<and> xs < ys)"
  "([] < (y::nat) # ys) = True" "(xs < ([]::nat list)) = False"
  "((x::nat) # xs \<le> y # ys) = (x < y \<or> x = y \<and> xs \<le> ys)"
  "([] \<le> (ys::nat list)) = True" "((x::nat) # xs \<le> []) = False"
  by (auto simp: less_list_code less_eq_list_code)

lemmas eval_more = treeInsert_def treeRemove_def emptyTree_def emptyStore_def transaction_def
  root_def getNode_def getVersion_def putVersion_def putNode_def putOrphan_def orphanKey_def
  newLeaf_def newBranch_def mkLeaf_def mkBranch_def sha256_def plainHash_def rawCodec_def
  compare_def balanceFactor_def differs_def balanced_def putKey_def Let_def
  numberToBuffer_small less_buffer_code






text \<open>
  C3. The claim asks \<open>getProof\<close> to fail for a key that is not in the tree. On the tree
  that holds the single key 97 the call for the key 98 answers a proof instead: the
  node at the end of the path is a leaf, and its key is not compared with the key
  asked for.
\<close>

theorem C3_getProof_absent_key:
  "\<exists>t. run plainHash rawCodec emptyTree [Insert [97] [49]] = Inr t \<and>
       \<not> treeHas t [98] \<and>
       getProof t [98] = Inr (([0, 0, 0, 1], [98], [49]), [])"
  by (simp add: eval_more treeHas_def getProof_def)

text \<open>
  C8. The claim asks for a neighbour of every absent key in a tree that is not empty.
  On the tree that holds the single key 97 neither neighbour of 98 is found, because
  the search answers nothing on a node that is not a branch.
\<close>

theorem C8_no_neighbor_on_single_leaf:
  "\<exists>t. run plainHash rawCodec emptyTree [Insert [97] [49]] = Inr t \<and>
       root t \<noteq> None \<and> \<not> treeHas t [98] \<and>
       getNonExistenceProof t [98] = Inr \<lparr>nepKey = [98], nepLeft = None, nepRight = None\<rparr>"
  by (simp add: eval_more treeHas_def getNonExistenceProof_def neighborProof_def)

text \<open>
  C5. The claim leaves the orphans outside the range alone. With no version below 2
  in the versions table, pruning the range from 2 to 2 takes the orphan whose
  \<open>toVersion\<close> is 1 out of the orphans table and its node out of the node table: the
  walk starts at the four bytes of \<open>fromVersion - 1\<close>, and every key with that prefix
  comes after them.
\<close>

theorem C5_prune_below_range:
  "orphanDB (prune \<lparr>versionDB = [(2, [7])],
                    nodeDB = [[9] \<mapsto> Leaf (mkLeaf [97] [49] (Some 1) (Some [9]))],
                    orphanDB = [orphanKey 1 1 [9]],
                    storeVersion = 3, transactions = []\<rparr> 2 2) = [] \<and>
   nodeDB (prune \<lparr>versionDB = [(2, [7])],
                   nodeDB = [[9] \<mapsto> Leaf (mkLeaf [97] [49] (Some 1) (Some [9]))],
                   orphanDB = [orphanKey 1 1 [9]],
                   storeVersion = 3, transactions = []\<rparr> 2 2) [9] = None"
  by (simp add: prune_def pruneOrphan_def numberfromBuffer_def mkLeaf_def eval_more)

section \<open>Claims about the version counter and persist\<close>

text \<open>
  C6. With no transaction open, a synchronous transaction (an insertion or a removal)
  and the start of a transaction advance the version by one, a commit leaves it there
  and a revert of that outermost transaction takes it back. Inside an open transaction
  neither an insertion, a removal, a start nor a commit changes the version, and a
  revert changes it only when it closes the outermost transaction.
\<close>

theorem C6_version_counter:
  "(transactions (treeStore t) = [] \<longrightarrow>
      storeVersion (transaction (treeStore t)) = storeVersion (treeStore t) + 1 \<and>
      (\<forall>t'. treeInsert H cd t k v = Inr t' \<longrightarrow>
            storeVersion (treeStore t') = storeVersion (treeStore t) + 1) \<and>
      (\<forall>t'. treeRemove H t k = Inr t' \<longrightarrow>
            storeVersion (treeStore t') = storeVersion (treeStore t) + 1) \<and>
      storeVersion (startTransaction (treeStore t)) = storeVersion (treeStore t) + 1 \<and>
      (\<exists>s'. commitTransaction (startTransaction (treeStore t)) = Inr s' \<and>
            storeVersion s' = storeVersion (treeStore t) + 1) \<and>
      (\<exists>s'. revertTransaction (startTransaction (treeStore t)) = Inr s' \<and>
            storeVersion s' = storeVersion (treeStore t))) \<and>
   (transactions (treeStore t) \<noteq> [] \<longrightarrow>
      storeVersion (transaction (treeStore t)) = storeVersion (treeStore t) \<and>
      (\<forall>t'. treeInsert H cd t k v = Inr t' \<longrightarrow>
            storeVersion (treeStore t') = storeVersion (treeStore t)) \<and>
      (\<forall>t'. treeRemove H t k = Inr t' \<longrightarrow>
            storeVersion (treeStore t') = storeVersion (treeStore t)) \<and>
      storeVersion (startTransaction (treeStore t)) = storeVersion (treeStore t) \<and>
      (\<exists>s'. commitTransaction (treeStore t) = Inr s' \<and>
            storeVersion s' = storeVersion (treeStore t)) \<and>
      (\<exists>s'. revertTransaction (treeStore t) = Inr s' \<and>
            storeVersion s' =
              (if length (transactions (treeStore t)) = 1
               then storeVersion (treeStore t) - 1 else storeVersion (treeStore t))))"
proof -
  have a: "\<And>t'. treeInsert H cd t k v = Inr t' \<Longrightarrow>
              storeVersion (treeStore t') = storeVersion (transaction (treeStore t))"
    using treeInsert_version[of H cd t k v] by simp
  have b: "\<And>t'. treeRemove H t k = Inr t' \<Longrightarrow>
              storeVersion (treeStore t') = storeVersion (transaction (treeStore t))"
    using treeRemove_version[of H t k] by simp
  have c: "transactions (treeStore t) = [] \<Longrightarrow>
           storeVersion (transaction (treeStore t)) = storeVersion (treeStore t) + 1"
    by (simp add: transaction_def)
  have d: "transactions (treeStore t) \<noteq> [] \<Longrightarrow>
           storeVersion (transaction (treeStore t)) = storeVersion (treeStore t)"
    by (simp add: transaction_def)
  have e: "storeVersion (startTransaction (treeStore t)) = storeVersion (transaction (treeStore t))"
    by (simp add: startTransaction_def Let_def)
  have f: "\<exists>s'. commitTransaction (startTransaction (treeStore t)) = Inr s' \<and>
            storeVersion s' = storeVersion (transaction (treeStore t))"
    by (simp add: commitTransaction_def startTransaction_def Let_def)
  have g: "transactions (treeStore t) = [] \<Longrightarrow>
           \<exists>s'. revertTransaction (startTransaction (treeStore t)) = Inr s' \<and>
            storeVersion s' = storeVersion (treeStore t)"
    by (simp add: revertTransaction_def startTransaction_def transaction_def restore_def Let_def)
  have h: "transactions (treeStore t) \<noteq> [] \<Longrightarrow>
      (\<exists>s'. commitTransaction (treeStore t) = Inr s' \<and> storeVersion s' = storeVersion (treeStore t))"
    by (simp add: commitTransaction_def)
  have i: "transactions (treeStore t) \<noteq> [] \<Longrightarrow>
      (\<exists>s'. revertTransaction (treeStore t) = Inr s' \<and>
            storeVersion s' =
              (if length (transactions (treeStore t)) = 1
               then storeVersion (treeStore t) - 1 else storeVersion (treeStore t)))"
    by (cases "transactions (treeStore t)" rule: rev_cases)
       (auto simp: revertTransaction_def restore_def Let_def)
  show ?thesis
  proof (cases "transactions (treeStore t) = []")
    case True
    then show ?thesis using a b c[OF True] e f g[OF True] by simp
  next
    case False
    then show ?thesis using a b d[OF False] e h[OF False] i[OF False] by simp
  qed
qed

theorem C6_version_counter_witness:
  "transactions (treeStore emptyTree) = [] \<and>
   (\<exists>t'. treeInsert plainHash rawCodec emptyTree [1] [1] = Inr t' \<and> storeVersion (treeStore t') = 1) \<and>
   (\<exists>s'. commitTransaction (startTransaction (treeStore emptyTree)) = Inr s' \<and> storeVersion s' = 1) \<and>
   (\<exists>s'. revertTransaction (startTransaction (treeStore emptyTree)) = Inr s' \<and> storeVersion s' = 0) \<and>
   transactions (startTransaction emptyStore) \<noteq> [] \<and>
   (\<exists>t'. treeInsert plainHash rawCodec \<lparr>treeStore = startTransaction emptyStore, rootHash = None\<rparr> [1] [1] = Inr t' \<and>
         storeVersion (treeStore t') = 1) \<and>
   (\<exists>s'. commitTransaction (startTransaction emptyStore) = Inr s' \<and> storeVersion s' = 1)"
proof -
  have v0: "storeVersion (treeStore emptyTree) = 0" "transactions (treeStore emptyTree) = []"
    by (simp_all add: emptyTree_def emptyStore_def)
  have v1: "storeVersion (startTransaction emptyStore) = 1" "transactions (startTransaction emptyStore) \<noteq> []"
    by (simp_all add: startTransaction_def emptyStore_def transaction_def Let_def)
  have i0: "\<exists>t'. treeInsert plainHash rawCodec emptyTree [1] [1] = Inr t'"
    by (simp add: eval_more)
  have i1: "\<exists>t'. treeInsert plainHash rawCodec \<lparr>treeStore = startTransaction emptyStore, rootHash = None\<rparr> [1] [1] = Inr t'"
    by (simp add: eval_more startTransaction_def snapshot_def)
  show ?thesis
    using C6_version_counter[of emptyTree plainHash rawCodec "[1]" "[1]"]
      C6_version_counter[of "\<lparr>treeStore = startTransaction emptyStore, rootHash = None\<rparr>" plainHash rawCodec "[1]" "[1]"]
      v0 v1 i0 i1
    by (auto simp: emptyTree_def)
qed

text \<open>
  C10. A node built with a hash is clean, and so is every node read from the node
  table. Persisting a tree without a dirty node writes nothing and answers the hash
  the node has; persisting again what persist has left writes nothing and changes
  nothing.
\<close>

theorem C10_persist_idempotent:
  "\<not> isDirty (mkLeaf k v ver (Some h)) \<and>
   \<not> isDirty (mkBranch k ver lh rh lhash rhash (Some h)) \<and>
   (\<forall>n0. getNode s h = Some n0 \<longrightarrow> \<not> nodeDirty n0) \<and>
   (allClean n \<longrightarrow> (\<exists>n'. persist H s n va = Inr (n', s) \<and> nodeHash n' = nodeHash n)) \<and>
   (\<forall>n1 s1. persist H s n va = Inr (n1, s1) \<longrightarrow> persist H s1 n1 vb = Inr (n1, s1))"
  using allClean_persist[of n H s va] persist_settled[of H s n va] settled_persist fromCompact_clean
  by (auto simp: mkLeaf_def mkBranch_def getNode_def split: option.splits)

theorem C10_persist_idempotent_witness:
  "(\<exists>n0. getNode (emptyStore\<lparr>nodeDB := [[9] \<mapsto> Leaf (mkLeaf [1] [1] (Some 1) (Some [9]))]\<rparr>) [9] = Some n0 \<and> \<not> nodeDirty n0) \<and>
   allClean (Leaf (mkLeaf [1] [1] (Some 1) (Some [9]))) \<and>
   (\<exists>n'. persist plainHash emptyStore (Leaf (mkLeaf [1] [1] (Some 1) (Some [9]))) 2 = Inr (n', emptyStore) \<and>
         nodeHash n' = Some [9]) \<and>
   (\<exists>n1 s1. persist plainHash emptyStore (newLeaf [1] [1]) 1 = Inr (n1, s1) \<and>
            persist plainHash s1 n1 2 = Inr (n1, s1))"
proof -
  have a: "\<exists>n0. getNode (emptyStore\<lparr>nodeDB := [[9] \<mapsto> Leaf (mkLeaf [1] [1] (Some 1) (Some [9]))]\<rparr>) [9] = Some n0"
    by (simp add: getNode_def)
  have b: "allClean (Leaf (mkLeaf [1] [1] (Some 1) (Some [9])))" by (simp add: mkLeaf_def)
  have c: "\<exists>n1 s1. persist plainHash emptyStore (newLeaf [1] [1]) 1 = Inr (n1, s1)"
    by (simp add: eval_more)
  show ?thesis
    using a b c
      C10_persist_idempotent[where h = "[9]" and H = plainHash and va = 2 and vb = 2
        and s = "emptyStore\<lparr>nodeDB := [[9] \<mapsto> Leaf (mkLeaf [1] [1] (Some 1) (Some [9]))]\<rparr>"
        and n = "Leaf (mkLeaf [1] [1] (Some 1) (Some [9]))"]
      C10_persist_idempotent[where h = "[9]" and H = plainHash and va = 2 and vb = 2
        and s = emptyStore and n = "Leaf (mkLeaf [1] [1] (Some 1) (Some [9]))"]
      C10_persist_idempotent[where h = "[9]" and H = plainHash and va = 1 and vb = 2
        and s = emptyStore and n = "newLeaf [1] [1]"]
    by (auto simp: mkLeaf_def)
qed

section \<open>Claims about removal of an absent key, proofs and lookups\<close>





end
